theory Spec2Isabelle
  imports Main "HOL-Library.Word"
begin

section \<open>Data model of the animated-GIF hook (useAnimatedGif)\<close>

text \<open>
  One RGBA pixel of a canvas bitmap or of an \<open>ImageData\<close> buffer: four bytes, as in a
  \<open>Uint8ClampedArray\<close>.
\<close>

record rgba =
  red :: "8 word"
  green :: "8 word"
  blue :: "8 word"
  alpha :: "8 word"

definition transparent :: rgba where
  "transparent = \<lparr>red = 0, green = 0, blue = 0, alpha = 0\<rparr>"

definition opaque :: "8 word \<Rightarrow> 8 word \<Rightarrow> 8 word \<Rightarrow> rgba" where
  "opaque r g b = \<lparr>red = r, green = g, blue = b, alpha = 255\<rparr>"

text \<open>
  \<open>ImageData\<close>: a width, a height and the pixels in row-major order. The bitmap of a canvas
  element is modelled by the same record.
\<close>

record ImageData =
  img_width :: nat
  img_height :: nat
  img_data :: "rgba list"

text \<open>\<open>interface Frame { imageData: ImageData; delay: number }\<close>\<close>

record Frame =
  imageData :: ImageData
  delay :: nat

text \<open>\<open>interface AnimatedGifState\<close>, field by field.\<close>

record AnimatedGifState =
  frames :: "Frame list"
  width :: nat
  height :: nat
  currentFrameIndex :: nat
  isPlaying :: bool
  originalDelays :: "nat list"
  isLoading :: bool
  error :: "string option"

text \<open>
  One instance of the hook: the React state, the three refs the scheduler uses
  (\<open>animationRef\<close>, \<open>lastTimeRef\<close>, \<open>frameTimeOffsetRef\<close>) and the two variables captured by
  the \<open>animate\<close> closure that \<open>play\<close> creates (\<open>state.frames\<close> as it was when \<open>play\<close> ran, and
  \<open>localFrameIndex\<close>). \<open>rafCounter\<close> is the browser's counter of animation-frame handles:
  \<open>requestAnimationFrame\<close> returns a fresh positive handle, so the truthiness tests
  \<open>if (animationRef.current)\<close> are tests for a handle being present.
  Timestamps are taken in whole milliseconds.
\<close>

record hook =
  state :: AnimatedGifState
  animationRef :: "nat option"
  lastTimeRef :: int
  frameTimeOffsetRef :: int
  closureFrames :: "Frame list"
  localFrameIndex :: nat
  rafCounter :: nat

definition initialState :: AnimatedGifState where
  "initialState = \<lparr>frames = [], width = 0, height = 0, currentFrameIndex = 0,
     isPlaying = False, originalDelays = [], isLoading = False, error = None\<rparr>"

definition initialHook :: hook where
  "initialHook = \<lparr>state = initialState, animationRef = None, lastTimeRef = 0,
     frameTimeOffsetRef = 0, closureFrames = [], localFrameIndex = 0, rafCounter = 0\<rparr>"

text \<open>Array indexing as JavaScript has it: out of range gives \<open>undefined\<close>.\<close>

definition at_index :: "'a list \<Rightarrow> nat \<Rightarrow> 'a option" where
  "at_index xs i = (if i < length xs then Some (xs ! i) else None)"

section \<open>Playback scheduler: play, animate, pause, reset\<close>

definition requestAnimationFrame :: "hook \<Rightarrow> hook" where
  "requestAnimationFrame h =
     h\<lparr>animationRef := Some (Suc (rafCounter h)), rafCounter := Suc (rafCounter h)\<rparr>"

definition cancelAnimation :: "hook \<Rightarrow> hook" where
  "cancelAnimation h = h\<lparr>animationRef := None\<rparr>"

text \<open>
  \<open>play\<close>, called at time \<open>now\<close> (\<open>performance.now()\<close>): nothing happens without frames or
  when already playing; otherwise the pending callback is cancelled, \<open>isPlaying\<close> is set, the
  time refs are reset, the closure captures the frames and the current index, and the first
  callback is requested.
\<close>

definition play :: "hook \<Rightarrow> int \<Rightarrow> hook" where
  "play h now =
     (if frames (state h) = [] \<or> isPlaying (state h) then h
      else requestAnimationFrame
        ((cancelAnimation h)\<lparr>state := (state h)\<lparr>isPlaying := True\<rparr>,
           lastTimeRef := now, frameTimeOffsetRef := 0,
           closureFrames := frames (state h),
           localFrameIndex := currentFrameIndex (state h)\<rparr>))"

text \<open>
  The scheduled callback \<open>animate(timestamp)\<close>. It returns at once when no handle is held.
  Reading \<open>.delay\<close> of a frame that does not exist is a \<open>TypeError\<close> (\<open>None\<close>), raised after
  the elapsed time has been added. The advance is one \<open>if\<close>, as in the source.
\<close>

definition animate :: "hook \<Rightarrow> int \<Rightarrow> hook option" where
  "animate h timestamp =
     (if animationRef h = None then Some h
      else
        let elapsed = timestamp - lastTimeRef h;
            h1 = h\<lparr>frameTimeOffsetRef := frameTimeOffsetRef h + elapsed\<rparr>
        in case at_index (closureFrames h) (localFrameIndex h) of
             None \<Rightarrow> None
           | Some currentFrame \<Rightarrow>
               let h2 =
                 (if frameTimeOffsetRef h1 \<ge> int (delay currentFrame) then
                    let l = (localFrameIndex h1 + 1) mod length (closureFrames h1)
                    in h1\<lparr>frameTimeOffsetRef := frameTimeOffsetRef h1 - int (delay currentFrame),
                          localFrameIndex := l,
                          state := (state h1)\<lparr>currentFrameIndex := l\<rparr>\<rparr>
                  else h1)
               in Some (requestAnimationFrame (h2\<lparr>lastTimeRef := timestamp\<rparr>)))"

definition pause :: "hook \<Rightarrow> hook" where
  "pause h = (cancelAnimation h)\<lparr>state := (state h)\<lparr>isPlaying := False\<rparr>\<rparr>"

definition reset :: "hook \<Rightarrow> hook" where
  "reset h = (cancelAnimation h)\<lparr>state := (state h)\<lparr>currentFrameIndex := 0, isPlaying := False\<rparr>\<rparr>"

text \<open>A run of scheduled callbacks at the given timestamps; a throwing callback ends the run.\<close>

fun ticks :: "hook \<Rightarrow> int list \<Rightarrow> hook option" where
  "ticks h [] = Some h"
| "ticks h (t # ts) = (case animate h t of None \<Rightarrow> None | Some h' \<Rightarrow> ticks h' ts)"

section \<open>Canvas operations used by the hook\<close>

text \<open>The pixel of a bitmap at column \<open>x\<close>, row \<open>y\<close> (read only inside the bitmap).\<close>

definition pixelAt :: "ImageData \<Rightarrow> nat \<Rightarrow> nat \<Rightarrow> rgba" where
  "pixelAt img x y = img_data img ! (y * img_width img + x)"

text \<open>A \<open>w\<close> by \<open>h\<close> bitmap whose pixel at \<open>(x, y)\<close> is \<open>f x y\<close>.\<close>

definition bitmap :: "nat \<Rightarrow> nat \<Rightarrow> (nat \<Rightarrow> nat \<Rightarrow> rgba) \<Rightarrow> ImageData" where
  "bitmap w h f = \<lparr>img_width = w, img_height = h,
     img_data = map (\<lambda>k. f (k mod w) (k div w)) [0..<w * h]\<rparr>"

text \<open>Assigning \<open>canvas.width\<close> and \<open>canvas.height\<close> gives a cleared bitmap of that size.\<close>

definition resizeCanvas :: "nat \<Rightarrow> nat \<Rightarrow> ImageData" where
  "resizeCanvas w h = bitmap w h (\<lambda>x y. transparent)"

text \<open>\<open>ctx.clearRect(0, 0, width, height)\<close> on a canvas of that size: every pixel is cleared.\<close>

definition clearRect :: "ImageData \<Rightarrow> ImageData" where
  "clearRect c = bitmap (img_width c) (img_height c) (\<lambda>x y. transparent)"

text \<open>
  \<open>ctx.putImageData(img, 0, 0)\<close>: the pixels of \<open>img\<close> replace those of the canvas (alpha
  included, no blending), clipped to the canvas.
\<close>

definition putImageData :: "ImageData \<Rightarrow> ImageData \<Rightarrow> ImageData" where
  "putImageData img c = bitmap (img_width c) (img_height c)
     (\<lambda>x y. if x < img_width img \<and> y < img_height img then pixelAt img x y else pixelAt c x y)"

text \<open>
  \<open>ctx.drawImage(src, dx, dy)\<close> with the default source-over blending, clipped to the
  canvas. Every pixel the hook ever writes to the patch canvas has alpha 0 or 255, so a
  source pixel either leaves the destination as it is (alpha 0) or replaces it.
\<close>

definition drawImage :: "ImageData \<Rightarrow> nat \<Rightarrow> nat \<Rightarrow> ImageData \<Rightarrow> ImageData" where
  "drawImage src dx dy c = bitmap (img_width c) (img_height c)
     (\<lambda>x y. if dx \<le> x \<and> dy \<le> y \<and> x - dx < img_width src \<and> y - dy < img_height src
               \<and> alpha (pixelAt src (x - dx) (y - dy)) \<noteq> 0
             then pixelAt src (x - dx) (y - dy) else pixelAt c x y)"

text \<open>\<open>ctx.getImageData(0, 0, width, height)\<close> on a canvas of that size: a copy of the bitmap.\<close>

definition getImageData :: "ImageData \<Rightarrow> ImageData" where
  "getImageData c = bitmap (img_width c) (img_height c) (pixelAt c)"

section \<open>Compositor: the frame loop of loadGif\<close>

text \<open>
  One decoded frame as the decoder (\<open>decompressFrames(gif, true)\<close>) hands it over:
  \<open>dims\<close>, the colour indices of the patch, the optional transparent index, the colour
  table, the disposal code and the delay.
\<close>

record dims =
  dims_width :: nat
  dims_height :: nat
  dims_left :: nat
  dims_top :: nat

record ParsedFrame =
  frame_dims :: dims
  pixels :: "nat list"
  transparentIndex :: "nat option"
  colorTable :: "(8 word \<times> 8 word \<times> 8 word) list"
  disposalType :: nat
  frame_delay :: nat

datatype load_error =
    FetchRejected string
  | FetchNotOk string
  | BufferError
  | ParseError
  | NoContext
  | NoPatchContext
  | ImageDataError

text \<open>
  Pixel \<open>j\<close> of \<open>patchData\<close>. The array starts as zeros; the loop over \<open>frame.pixels\<close> writes
  alpha 0 for the transparent index and an opaque colour otherwise, with
  \<open>frame.colorTable[colorIndex] || [0, 0, 0]\<close> for the colour.
\<close>

definition patchPixel :: "ParsedFrame \<Rightarrow> nat \<Rightarrow> rgba" where
  "patchPixel frame j =
     (case at_index (pixels frame) j of
        None \<Rightarrow> transparent
      | Some colorIndex \<Rightarrow>
          if transparentIndex frame = Some colorIndex then transparent
          else (case at_index (colorTable frame) colorIndex of
                  None \<Rightarrow> opaque 0 0 0
                | Some (r, g, b) \<Rightarrow> opaque r g b))"

text \<open>
  \<open>new ImageData(patchData, patchWidth, patchHeight)\<close>; the constructor throws when the
  patch has no pixels.
\<close>

definition patchImageData :: "ParsedFrame \<Rightarrow> load_error + ImageData" where
  "patchImageData frame =
     (let patchWidth = dims_width (frame_dims frame); patchHeight = dims_height (frame_dims frame)
      in if patchWidth * patchHeight = 0 then Inl ImageDataError
         else Inr \<lparr>img_width = patchWidth, img_height = patchHeight,
                   img_data = map (patchPixel frame) [0..<patchWidth * patchHeight]\<rparr>)"

text \<open>\<open>frame.delay || 100\<close>\<close>

definition delayOrDefault :: "nat \<Rightarrow> nat" where
  "delayOrDefault d = (if d = 0 then 100 else d)"

text \<open>The variables the frame loop updates.\<close>

record loop_state =
  ctx :: ImageData
  patchCanvas :: ImageData
  previousImageData :: "ImageData option"
  processedFrames :: "Frame list"
  delaysAcc :: "nat list"

text \<open>
  The disposal step at the head of the loop body; \<open>prev\<close> is \<open>frames[i-1]\<close>, absent when
  \<open>i = 0\<close>.
\<close>

definition disposal :: "ParsedFrame option \<Rightarrow> loop_state \<Rightarrow> ImageData" where
  "disposal prev st =
     (case prev of
        None \<Rightarrow> clearRect (ctx st)
      | Some p \<Rightarrow>
          if disposalType p = 2 then clearRect (ctx st)
          else (case previousImageData st of
                  Some saved \<Rightarrow> if disposalType p \<noteq> 3 then putImageData saved (ctx st) else ctx st
                | None \<Rightarrow> ctx st))"

text \<open>One iteration of the loop for \<open>frame\<close>.\<close>

definition processFrame :: "ParsedFrame option \<Rightarrow> ParsedFrame \<Rightarrow> loop_state \<Rightarrow> load_error + loop_state" where
  "processFrame prev frame st =
     (let ctx1 = disposal prev st
      in case patchImageData frame of
           Inl e \<Rightarrow> Inl e
         | Inr patch \<Rightarrow>
             let pc = putImageData patch (patchCanvas st);
                 ctx2 = drawImage pc (dims_left (frame_dims frame)) (dims_top (frame_dims frame)) ctx1
             in Inr \<lparr>ctx = ctx2, patchCanvas = pc,
                     previousImageData = Some (getImageData ctx2),
                     processedFrames = processedFrames st @
                       [\<lparr>imageData = getImageData ctx2, delay = delayOrDefault (frame_delay frame)\<rparr>],
                     delaysAcc = delaysAcc st @ [delayOrDefault (frame_delay frame)]\<rparr>)"

fun processFrames :: "ParsedFrame option \<Rightarrow> ParsedFrame list \<Rightarrow> loop_state \<Rightarrow> load_error + loop_state" where
  "processFrames prev [] st = Inr st"
| "processFrames prev (frame # rest) st =
     (case processFrame prev frame st of
        Inl e \<Rightarrow> Inl e
      | Inr st' \<Rightarrow> processFrames (Some frame) rest st')"

text \<open>
  The variables at the start of the loop, both canvases sized to \<open>width\<close> and \<open>height\<close>, and
  the loop from its start, \<open>width\<close> and \<open>height\<close> being the first frame's \<open>dims\<close>.
\<close>

definition loopStart :: "nat \<Rightarrow> nat \<Rightarrow> loop_state" where
  "loopStart w h = \<lparr>ctx = resizeCanvas w h, patchCanvas = resizeCanvas w h,
     previousImageData = None, processedFrames = [], delaysAcc = []\<rparr>"

definition compose :: "ParsedFrame list \<Rightarrow> load_error + loop_state" where
  "compose fs =
     processFrames None fs
       (loopStart (dims_width (frame_dims (hd fs))) (dims_height (frame_dims (hd fs))))"

section \<open>loadGif\<close>

text \<open>
  What the outside world gives one call of \<open>loadGif\<close>: the fetch rejects, answers with a
  status that is not ok, the body cannot be read, the parser throws, or the decoder returns a
  frame list; and whether the two canvases give a 2D context.
\<close>

datatype load_source =
    FetchRejects string
  | FetchStatus string
  | BodyUnreadable
  | ParseThrows
  | Decoded "ParsedFrame list"

record load_env =
  source :: load_source
  canvasContext :: bool
  patchContext :: bool

text \<open>
  The body of the \<open>try\<close> block up to the state update: the error thrown, or \<open>width\<close> and
  \<open>height\<close> (the first frame's \<open>dims\<close>) with the variables of the finished loop.
\<close>

definition loadAttempt :: "load_env \<Rightarrow> load_error + (nat \<times> nat \<times> loop_state)" where
  "loadAttempt env =
     (case source env of
        FetchRejects m \<Rightarrow> Inl (FetchRejected m)
      | FetchStatus m \<Rightarrow> Inl (FetchNotOk m)
      | BodyUnreadable \<Rightarrow> Inl BufferError
      | ParseThrows \<Rightarrow> Inl ParseError
      | Decoded fs \<Rightarrow>
          if fs = [] then Inl ParseError
          else if \<not> canvasContext env then Inl NoContext
          else if \<not> patchContext env then Inl NoPatchContext
          else (case compose fs of
                  Inl e \<Rightarrow> Inl e
                | Inr st \<Rightarrow>
                    Inr (dims_width (frame_dims (hd fs)), dims_height (frame_dims (hd fs)), st)))"

text \<open>
  \<open>err.message\<close> for each error. The text of the exception that the \<open>ImageData\<close>
  constructor throws is the browser's own; a fixed string stands for it.
\<close>

definition errorMessage :: "load_error \<Rightarrow> string" where
  "errorMessage e =
     (case e of
        FetchRejected m \<Rightarrow> ''Failed to fetch GIF: '' @ m
      | FetchNotOk m \<Rightarrow> ''Failed to fetch GIF: Failed to fetch GIF: '' @ m
      | BufferError \<Rightarrow> ''Failed to read GIF data''
      | ParseError \<Rightarrow> ''Failed to parse GIF format. Is this a valid GIF file?''
      | NoContext \<Rightarrow> ''Could not get 2D context from canvas''
      | NoPatchContext \<Rightarrow> ''Could not get 2D context from patch canvas''
      | ImageDataError \<Rightarrow> ''Failed to construct ImageData'')"

text \<open>
  \<open>loadGif\<close>: cancel the animation, put the state into its loading shape (which empties
  \<open>frames\<close>), clear the time offset, then either install the new frames and return \<open>true\<close>
  or record the error and return \<open>false\<close>.
\<close>

definition loadGif :: "hook \<Rightarrow> load_env \<Rightarrow> hook \<times> bool" where
  "loadGif h env =
     (let h1 = (cancelAnimation h)\<lparr>state := (state h)\<lparr>isLoading := True, error := None,
                  frames := [], isPlaying := False, currentFrameIndex := 0\<rparr>,
                frameTimeOffsetRef := 0\<rparr>
      in case loadAttempt env of
           Inr (w, hgt, st) \<Rightarrow>
             (h1\<lparr>state := \<lparr>frames = processedFrames st, width = w, height = hgt,
                    currentFrameIndex = 0, isPlaying = False, originalDelays = delaysAcc st,
                    isLoading = False, error = None\<rparr>\<rparr>, True)
         | Inl e \<Rightarrow>
             (h1\<lparr>state := (state h1)\<lparr>isLoading := False, error := Some (errorMessage e)\<rparr>\<rparr>, False))"

section \<open>renderToCanvas and generateGif\<close>

text \<open>
  The target canvas: its bitmap and whether \<open>getContext('2d')\<close> gives a context. The effect
  callback mutates the canvas; it either returns or throws, leaving the canvas as it then is.
\<close>

record canvas =
  surface :: ImageData
  hasContext :: bool

datatype effect_outcome = Returned ImageData | Threw ImageData

definition fitCanvas :: "AnimatedGifState \<Rightarrow> ImageData \<Rightarrow> ImageData" where
  "fitCanvas s c =
     (if img_width c \<noteq> width s \<or> img_height c \<noteq> height s
      then resizeCanvas (width s) (height s) else c)"

definition renderToCanvas ::
  "hook \<Rightarrow> canvas \<Rightarrow> (ImageData \<Rightarrow> effect_outcome) option \<Rightarrow> bool \<times> canvas" where
  "renderToCanvas h cv applyEffects =
     (let s = state h in
      if frames s = [] \<or> currentFrameIndex s \<ge> length (frames s) then (False, cv)
      else if \<not> hasContext cv then (False, cv)
      else
        let currentFrame = frames s ! currentFrameIndex s;
            drawn = putImageData (imageData currentFrame) (fitCanvas s (surface cv))
        in case applyEffects of
             None \<Rightarrow> (True, cv\<lparr>surface := drawn\<rparr>)
           | Some fx \<Rightarrow>
               (case fx drawn of
                  Returned c \<Rightarrow> (True, cv\<lparr>surface := c\<rparr>)
                | Threw c \<Rightarrow> (False, cv\<lparr>surface := c\<rparr>)))"

text \<open>
  The export promise: rejected, still pending for ever (an effect that throws inside a
  timer callback), or resolved by the encoder from the frames it was handed, each with its
  \<open>delay\<close> option (\<open>state.originalDelays[frameCount]\<close>, possibly \<open>undefined\<close>).
\<close>

datatype export_outcome =
    Rejected
  | Pending
  | Resolved "(ImageData \<times> nat option) list"

text \<open>
  \<open>processNextFrame\<close>, from \<open>frameCount = k\<close> on; \<open>fs\<close> are the frames not yet processed,
  \<open>acc\<close> what the encoder holds, \<open>c\<close> the canvas bitmap.
\<close>

fun processNextFrame ::
  "nat list \<Rightarrow> (ImageData \<Rightarrow> effect_outcome) \<Rightarrow> bool \<Rightarrow> nat \<Rightarrow> Frame list \<Rightarrow> ImageData \<Rightarrow>
   (ImageData \<times> nat option) list \<Rightarrow> export_outcome" where
  "processNextFrame ds fx renderOk k [] c acc = (if renderOk then Resolved acc else Rejected)"
| "processNextFrame ds fx renderOk k (f # fs) c acc =
     (case fx (putImageData (imageData f) c) of
        Threw c' \<Rightarrow> (if k = 0 then Rejected else Pending)
      | Returned c' \<Rightarrow> processNextFrame ds fx renderOk (Suc k) fs c' (acc @ [(c', at_index ds k)]))"

record export_env =
  moduleLoads :: bool
  renderOk :: bool

definition generateGif ::
  "hook \<Rightarrow> canvas \<Rightarrow> (ImageData \<Rightarrow> effect_outcome) \<Rightarrow> export_env \<Rightarrow> export_outcome" where
  "generateGif h cv applyEffects env =
     (let s = state h in
      if frames s = [] then Rejected
      else if \<not> moduleLoads env then Rejected
      else if \<not> hasContext cv then Rejected
      else processNextFrame (originalDelays s) applyEffects (renderOk env) 0 (frames s)
             (fitCanvas s (surface cv)) [])"

section \<open>Frame Store invariant and example inputs\<close>

text \<open>An image of the given size with a complete pixel list.\<close>

definition wellSized :: "nat \<Rightarrow> nat \<Rightarrow> ImageData \<Rightarrow> bool" where
  "wellSized w h img = (img_width img = w \<and> img_height img = h \<and> length (img_data img) = w * h)"

text \<open>
  The shape of every state the hook can reach: either there are no frames, or
  \<open>originalDelays\<close> lists the frames' delays and every frame has the state's size.
\<close>

definition storeOk :: "AnimatedGifState \<Rightarrow> bool" where
  "storeOk s = (frames s = [] \<or>
     (originalDelays s = map delay (frames s) \<and>
      list_all (\<lambda>f. wellSized (width s) (height s) (imageData f)) (frames s)))"

text \<open>A hook holding three blank 1 by 1 frames with delays 100, 200 and 50.\<close>

definition blankFrame :: "nat \<Rightarrow> Frame" where
  "blankFrame d = \<lparr>imageData = resizeCanvas 1 1, delay = d\<rparr>"

definition exampleHook :: hook where
  "exampleHook = initialHook\<lparr>state := initialState\<lparr>
      frames := [blankFrame 100, blankFrame 200, blankFrame 50],
      width := 1, height := 1, originalDelays := [100, 200, 50]\<rparr>\<rparr>"

text \<open>The same store with the frame index at 999.\<close>

definition outOfRangeHook :: hook where
  "outOfRangeHook = exampleHook\<lparr>state := (state exampleHook)\<lparr>currentFrameIndex := 999\<rparr>\<rparr>"

text \<open>Decoded frames over the two-colour table red, blue.\<close>

definition patch :: "nat \<Rightarrow> nat \<Rightarrow> nat \<Rightarrow> nat \<Rightarrow> nat list \<Rightarrow> nat option \<Rightarrow> nat \<Rightarrow> nat \<Rightarrow> ParsedFrame" where
  "patch w h l t px ti disp d =
     \<lparr>frame_dims = \<lparr>dims_width = w, dims_height = h, dims_left = l, dims_top = t\<rparr>,
      pixels = px, transparentIndex = ti, colorTable = [(255, 0, 0), (0, 0, 255)],
      disposalType = disp, frame_delay = d\<rparr>"

text \<open>
  A 1 by 1 asset: a red patch with disposal 3, then a patch whose only pixel is the
  transparent index.
\<close>

definition restorePreviousGif :: "ParsedFrame list" where
  "restorePreviousGif = [patch 1 1 0 0 [0] None 3 10, patch 1 1 0 0 [1] (Some 1) 1 10]"

text \<open>
  A 2 by 1 asset: two red pixels; then a blue 1 by 1 patch at column 1 with disposal 2; then
  a 1 by 1 patch at column 1 whose only pixel is the transparent index.
\<close>

definition backgroundGif :: "ParsedFrame list" where
  "backgroundGif = [patch 2 1 0 0 [0, 0] None 1 10, patch 1 1 1 0 [1] None 2 10,
                    patch 1 1 1 0 [2] (Some 2) 1 10]"

text \<open>
  A 3 by 1 patch: a red pixel, a pixel with the transparent index 5, and a pixel whose
  index 7 has no entry in the colour table.
\<close>

definition mixedPatch :: ParsedFrame where
  "mixedPatch = patch 3 1 0 0 [0, 5, 7] (Some 5) 1 0"

definition parseFailure :: load_env where
  "parseFailure = \<lparr>source = ParseThrows, canvasContext = True, patchContext = True\<rparr>"

definition backgroundLoad :: load_env where
  "backgroundLoad = \<lparr>source = Decoded backgroundGif, canvasContext = True, patchContext = True\<rparr>"

definition exampleCanvas :: canvas where
  "exampleCanvas = \<lparr>surface = resizeCanvas 5 7, hasContext = True\<rparr>"

definition exampleExport :: export_env where
  "exampleExport = \<lparr>moduleLoads = True, renderOk = True\<rparr>"

section \<open>Basic facts about bitmaps\<close>

lemma bitmap_dims [simp]:
  "img_width (bitmap w h f) = w" "img_height (bitmap w h f) = h"
  "length (img_data (bitmap w h f)) = w * h"
  by (simp_all add: bitmap_def)

lemma index_in_bitmap:
  assumes "x < w" and "y < (h::nat)"
  shows "y * w + x < w * h"
proof -
  have "y * w + x < y * w + w" using assms(1) by simp
  also have "\<dots> = (Suc y) * w" by simp
  also have "\<dots> \<le> h * w" using assms(2) by (intro mult_le_mono1) simp
  finally show ?thesis by (simp add: mult.commute)
qed

lemma pixelAt_bitmap:
  assumes "x < w" and "y < h"
  shows "pixelAt (bitmap w h f) x y = f x y"
proof -
  have k: "y * w + x < w * h" using assms by (rule index_in_bitmap)
  have "pixelAt (bitmap w h f) x y = f ((y * w + x) mod w) ((y * w + x) div w)"
    using k by (simp add: pixelAt_def bitmap_def)
  also have "(y * w + x) mod w = x" using assms(1) by simp
  also have "(y * w + x) div w = y" using assms(1) by simp
  finally show ?thesis .
qed

lemma wellSized_bitmap: "wellSized w h (bitmap w h f)"
  by (simp add: wellSized_def)

lemma canvas_op_dims [simp]:
  "img_width (clearRect c) = img_width c" "img_height (clearRect c) = img_height c"
  "img_width (putImageData img c) = img_width c" "img_height (putImageData img c) = img_height c"
  "img_width (drawImage src dx dy c) = img_width c" "img_height (drawImage src dx dy c) = img_height c"
  "img_width (getImageData c) = img_width c" "img_height (getImageData c) = img_height c"
  "img_width (resizeCanvas w h) = w" "img_height (resizeCanvas w h) = h"
  by (simp_all add: clearRect_def putImageData_def drawImage_def getImageData_def resizeCanvas_def)

lemma putImageData_same:
  assumes "wellSized w h img" and "img_width c = w" and "img_height c = h"
  shows "putImageData img c = img"
proof -
  have len: "length (img_data img) = w * h" and iw: "img_width img = w" and ih: "img_height img = h"
    using assms(1) by (simp_all add: wellSized_def)
  have "map (\<lambda>k. if k mod w < w \<and> k div w < h then pixelAt img (k mod w) (k div w)
                  else pixelAt c (k mod w) (k div w)) [0..<w * h] = map (\<lambda>k. img_data img ! k) [0..<w * h]"
  proof (rule map_cong [OF refl])
    fix k assume "k \<in> set [0..<w * h]"
    then have k: "k < w * h" by simp
    then have "0 < w" by (cases w) simp_all
    moreover have "k div w < h" using k by (simp add: less_mult_imp_div_less mult.commute)
    ultimately show "(if k mod w < w \<and> k div w < h then pixelAt img (k mod w) (k div w)
                  else pixelAt c (k mod w) (k div w)) = img_data img ! k" by (simp add: pixelAt_def iw)
  qed
  also have "\<dots> = img_data img" using len map_nth [of "img_data img"] by simp
  finally have "img_data (putImageData img c) = img_data img"
    by (simp add: putImageData_def bitmap_def assms(2,3) iw ih)
  moreover have "img_width (putImageData img c) = img_width img" "img_height (putImageData img c) = img_height img"
    by (simp_all add: assms(2,3) iw ih)
  ultimately show ?thesis by simp
qed

section \<open>The frame loop\<close>

lemma disposal_dims [simp]:
  "img_width (disposal prev st) = img_width (ctx st)" "img_height (disposal prev st) = img_height (ctx st)"
  by (auto simp: disposal_def split: option.splits)

text \<open>
  For a previous frame with disposal code 3 the disposal step is the identity on the working
  canvas: neither of its two branches applies.
\<close>

lemma disposal_code_3_keeps_canvas:
  assumes "disposalType p = 3"
  shows "disposal (Some p) st = ctx st"
  using assms by (simp add: disposal_def split: option.splits)

lemma patchImageData_Inr:
  assumes "patchImageData frame = Inr p"
  shows "p = \<lparr>img_width = dims_width (frame_dims frame), img_height = dims_height (frame_dims frame),
           img_data = map (patchPixel frame) [0..<dims_width (frame_dims frame) * dims_height (frame_dims frame)]\<rparr>"
  using assms by (simp add: patchImageData_def Let_def split: if_splits)

lemma pixelAt_patch:
  assumes "patchImageData frame = Inr p" and "x < dims_width (frame_dims frame)" and "y < dims_height (frame_dims frame)"
  shows "pixelAt p x y = patchPixel frame (y * dims_width (frame_dims frame) + x)"
proof -
  have "y * dims_width (frame_dims frame) + x < dims_width (frame_dims frame) * dims_height (frame_dims frame)"
    using assms(2,3) by (rule index_in_bitmap)
  then show ?thesis
    by (simp add: patchImageData_Inr [OF assms(1)] pixelAt_def)
qed

lemma processFrame_Inr:
  assumes "processFrame prev frame st = Inr st'"
  obtains p where "patchImageData frame = Inr p"
    and "ctx st' = drawImage (putImageData p (patchCanvas st)) (dims_left (frame_dims frame)) (dims_top (frame_dims frame)) (disposal prev st)"
    and "patchCanvas st' = putImageData p (patchCanvas st)"
    and "previousImageData st' = Some (getImageData (ctx st'))"
    and "processedFrames st' = processedFrames st @ [\<lparr>imageData = getImageData (ctx st'), delay = delayOrDefault (frame_delay frame)\<rparr>]"
    and "delaysAcc st' = delaysAcc st @ [delayOrDefault (frame_delay frame)]"
  using assms by (auto simp: processFrame_def Let_def split: sum.splits)

text \<open>
  What the loop keeps: the sizes of both canvases, one frame and one delay appended per
  decoded frame, and every appended frame of the canvas size.
\<close>

lemma processFrames_invariant:
  assumes "processFrames prev fs st = Inr st'"
  shows "img_width (ctx st') = img_width (ctx st) \<and> img_height (ctx st') = img_height (ctx st) \<and>
     img_width (patchCanvas st') = img_width (patchCanvas st) \<and>
     img_height (patchCanvas st') = img_height (patchCanvas st) \<and>
     delaysAcc st' = delaysAcc st @ map (\<lambda>f. delayOrDefault (frame_delay f)) fs \<and>
     map delay (processedFrames st') = map delay (processedFrames st) @ map (\<lambda>f. delayOrDefault (frame_delay f)) fs \<and>
     (list_all (\<lambda>f. wellSized (img_width (ctx st)) (img_height (ctx st)) (imageData f)) (processedFrames st) \<longrightarrow>
      list_all (\<lambda>f. wellSized (img_width (ctx st)) (img_height (ctx st)) (imageData f)) (processedFrames st'))"
  using assms
proof (induction fs arbitrary: prev st)
  case Nil
  then show ?case by simp
next
  case (Cons frame rest)
  from Cons.prems obtain st1 where one: "processFrame prev frame st = Inr st1"
    and more: "processFrames (Some frame) rest st1 = Inr st'"
    by (auto split: sum.splits)
  from one obtain p where c: "ctx st1 = drawImage (putImageData p (patchCanvas st)) (dims_left (frame_dims frame)) (dims_top (frame_dims frame)) (disposal prev st)"
    and pc: "patchCanvas st1 = putImageData p (patchCanvas st)"
    and fr: "processedFrames st1 = processedFrames st @ [\<lparr>imageData = getImageData (ctx st1), delay = delayOrDefault (frame_delay frame)\<rparr>]"
    and dl: "delaysAcc st1 = delaysAcc st @ [delayOrDefault (frame_delay frame)]"
    by (rule processFrame_Inr)
  have d1: "img_width (ctx st1) = img_width (ctx st)" "img_height (ctx st1) = img_height (ctx st)"
    "img_width (patchCanvas st1) = img_width (patchCanvas st)" "img_height (patchCanvas st1) = img_height (patchCanvas st)"
    by (simp_all add: c pc)
  have w1: "wellSized (img_width (ctx st)) (img_height (ctx st)) (getImageData (ctx st1))"
    using wellSized_bitmap [of "img_width (ctx st1)" "img_height (ctx st1)" "pixelAt (ctx st1)"]
    by (simp add: getImageData_def d1)
  from Cons.IH [OF more] show ?case
    by (simp add: d1 dl fr w1)
qed

lemma compose_invariant:
  assumes "compose fs = Inr st"
  shows "delaysAcc st = map delay (processedFrames st) \<and> length (processedFrames st) = length fs \<and>
     list_all (\<lambda>f. wellSized (dims_width (frame_dims (hd fs))) (dims_height (frame_dims (hd fs))) (imageData f))
       (processedFrames st)"
proof -
  let ?w = "dims_width (frame_dims (hd fs))" and ?h = "dims_height (frame_dims (hd fs))"
  from assms have run: "processFrames None fs (loopStart ?w ?h) = Inr st" by (simp add: compose_def)
  have start: "ctx (loopStart ?w ?h) = resizeCanvas ?w ?h" "processedFrames (loopStart ?w ?h) = []"
    "delaysAcc (loopStart ?w ?h) = []" by (simp_all add: loopStart_def)
  from processFrames_invariant [OF run]
  have a: "delaysAcc st = map (\<lambda>f. delayOrDefault (frame_delay f)) fs"
    and b: "map delay (processedFrames st) = map (\<lambda>f. delayOrDefault (frame_delay f)) fs"
    and c: "list_all (\<lambda>f. wellSized ?w ?h (imageData f)) (processedFrames st)"
    by (simp_all add: start)
  have len: "length (processedFrames st) = length fs"
    using arg_cong [OF b, of length] by simp
  from a b have "delaysAcc st = map delay (processedFrames st)" by simp
  with len c show ?thesis by blast
qed

text \<open>Every state left by \<open>loadGif\<close>, failed or not, and the initial one, has the shape \<open>storeOk\<close>.\<close>

lemma loadGif_storeOk: "storeOk (state (fst (loadGif h env)))"
proof (cases "loadAttempt env")
  case (Inl e)
  then show ?thesis by (simp add: loadGif_def storeOk_def Let_def)
next
  case (Inr r)
  obtain w hgt st where r: "r = (w, hgt, st)" by (cases r)
  from Inr r obtain fs where fs: "compose fs = Inr st"
    and wh: "w = dims_width (frame_dims (hd fs))" "hgt = dims_height (frame_dims (hd fs))"
    by (auto simp: loadAttempt_def split: load_source.splits if_splits sum.splits)
  from compose_invariant [OF fs] show ?thesis
    using Inr r wh by (simp add: loadGif_def storeOk_def Let_def)
qed

lemma initial_storeOk: "storeOk initialState"
  by (simp add: storeOk_def initialState_def)

lemma scheduler_keeps_store:
  "frames (state (play h now)) = frames (state h)" "originalDelays (state (play h now)) = originalDelays (state h)"
  "frames (state (pause h)) = frames (state h)" "originalDelays (state (pause h)) = originalDelays (state h)"
  "frames (state (reset h)) = frames (state h)" "originalDelays (state (reset h)) = originalDelays (state h)"
  "width (state (play h now)) = width (state h)" "height (state (play h now)) = height (state h)"
  "width (state (pause h)) = width (state h)" "height (state (pause h)) = height (state h)"
  "width (state (reset h)) = width (state h)" "height (state (reset h)) = height (state h)"
  by (simp_all add: play_def pause_def reset_def requestAnimationFrame_def cancelAnimation_def)

lemma animate_keeps_store:
  assumes "animate h timestamp = Some h'"
  shows "frames (state h') = frames (state h) \<and> originalDelays (state h') = originalDelays (state h)
     \<and> width (state h') = width (state h) \<and> height (state h') = height (state h)"
  using assms
  by (auto simp: animate_def requestAnimationFrame_def Let_def split: if_splits option.splits)

text \<open>The four failures of the load that happen before any frame is composed.\<close>

lemma loadGif_fails:
  assumes "source env = FetchRejects m \<or> source env = FetchStatus m \<or> source env = BodyUnreadable
     \<or> source env = ParseThrows \<or> source env = Decoded []"
  shows "snd (loadGif h env) = False"
  using assms by (auto simp: loadGif_def loadAttempt_def Let_def)

section \<open>The export loop\<close>

lemma processNextFrame_returns:
  assumes fx: "\<forall>c. fx c = Returned (t c)"
  shows "\<exists>xs. processNextFrame ds fx True k fs c acc = Resolved (acc @ xs) \<and> length xs = length fs \<and>
     (\<forall>i<length fs. xs ! i = (t (putImageData (imageData (fs ! i)) (if i = 0 then c else fst (xs ! (i - 1)))),
                              at_index ds (k + i)))"
proof (induction fs arbitrary: k c acc)
  case Nil
  show ?case by simp
next
  case (Cons f fs)
  let ?c = "t (putImageData (imageData f) c)"
  from Cons.IH [of "Suc k" ?c "acc @ [(?c, at_index ds k)]"]
  obtain xs where run: "processNextFrame ds fx True (Suc k) fs ?c (acc @ [(?c, at_index ds k)]) = Resolved ((acc @ [(?c, at_index ds k)]) @ xs)"
    and len: "length xs = length fs"
    and each: "\<forall>i<length fs. xs ! i = (t (putImageData (imageData (fs ! i)) (if i = 0 then ?c else fst (xs ! (i - 1)))), at_index ds (Suc k + i))"
    by blast
  let ?ys = "(?c, at_index ds k) # xs"
  have "processNextFrame ds fx True k (f # fs) c acc = Resolved (acc @ ?ys)"
    using fx run by simp
  moreover have "length ?ys = length (f # fs)" using len by simp
  moreover have "\<forall>i<length (f # fs). ?ys ! i =
      (t (putImageData (imageData ((f # fs) ! i)) (if i = 0 then c else fst (?ys ! (i - 1)))), at_index ds (k + i))"
  proof (intro allI impI)
    fix i assume i: "i < length (f # fs)"
    show "?ys ! i = (t (putImageData (imageData ((f # fs) ! i)) (if i = 0 then c else fst (?ys ! (i - 1)))), at_index ds (k + i))"
    proof (cases i)
      case 0
      then show ?thesis by simp
    next
      case (Suc j)
      with i have j: "j < length fs" by simp
      from each j have "xs ! j = (t (putImageData (imageData (fs ! j)) (if j = 0 then ?c else fst (xs ! (j - 1)))), at_index ds (Suc k + j))"
        by blast
      then show ?thesis using Suc by (cases j) simp_all
    qed
  qed
  ultimately show ?case by blast
qed

lemma fitCanvas_dims [simp]:
  "img_width (fitCanvas s c) = width s" "img_height (fitCanvas s c) = height s"
  by (auto simp: fitCanvas_def)

lemmas scheduler_defs = play_def animate_def pause_def reset_def requestAnimationFrame_def
  cancelAnimation_def at_index_def

lemmas example_defs = exampleHook_def initialHook_def initialState_def blankFrame_def

section \<open>Playback scheduler\<close>

text \<open>
  C1, the example as the claim states it. Playback starts at time 0 on frame 0 of three
  frames with delays 100, 200 and 50; the callback then runs once with 275 ms elapsed. The
  claim expects frame 2 with a carry-over of 25; the callback advances once, to frame 1, and
  keeps 175.
\<close>

theorem tick_fast_forward_counterexample:
  "animate (play exampleHook 0) 275 \<noteq> None
   \<and> currentFrameIndex (state (the (animate (play exampleHook 0) 275))) = 1
   \<and> frameTimeOffsetRef (the (animate (play exampleHook 0) 275)) = 175
   \<and> \<not> (currentFrameIndex (state (the (animate (play exampleHook 0) 275))) = 2
        \<and> frameTimeOffsetRef (the (animate (play exampleHook 0) 275)) = 25)"
  by (simp add: example_defs scheduler_defs Let_def)

text \<open>
  C1, amended. While a callback is scheduled and the closure's frame index is inside the
  captured frames, one callback with elapsed time \<open>e\<close> adds \<open>e\<close> to the carry-over and then,
  if the carry-over has reached the current frame's delay, subtracts that delay once and
  advances the frame index by one modulo the number of frames: a single conditional, at most
  one advance per callback. Otherwise the index stays.
\<close>

theorem tick_advances_once:
  assumes "animationRef h \<noteq> None" and "localFrameIndex h < length (closureFrames h)"
  shows "animate h (lastTimeRef h + e) \<noteq> None \<and>
     (let d = int (delay (closureFrames h ! localFrameIndex h));
          c = frameTimeOffsetRef h + e;
          h' = the (animate h (lastTimeRef h + e))
      in frameTimeOffsetRef h' = (if d \<le> c then c - d else c) \<and>
         localFrameIndex h' =
           (if d \<le> c then (localFrameIndex h + 1) mod length (closureFrames h) else localFrameIndex h) \<and>
         currentFrameIndex (state h') =
           (if d \<le> c then (localFrameIndex h + 1) mod length (closureFrames h)
            else currentFrameIndex (state h)))"
proof -
  from assms(1) obtain handle where "animationRef h = Some handle" by auto
  with assms(2) show ?thesis
    by (simp add: animate_def at_index_def requestAnimationFrame_def Let_def)
qed

theorem tick_advances_once_witness:
  "animationRef (play exampleHook 0) \<noteq> None
   \<and> localFrameIndex (play exampleHook 0) < length (closureFrames (play exampleHook 0))
   \<and> animate (play exampleHook 0) 275 \<noteq> None
   \<and> frameTimeOffsetRef (the (animate (play exampleHook 0) 275)) = 175
   \<and> localFrameIndex (the (animate (play exampleHook 0) 275)) = 1
   \<and> currentFrameIndex (state (the (animate (play exampleHook 0) 275))) = 1"
proof -
  have a: "animationRef (play exampleHook 0) \<noteq> None"
    by (simp add: example_defs scheduler_defs)
  have b: "localFrameIndex (play exampleHook 0) < length (closureFrames (play exampleHook 0))"
    by (simp add: example_defs scheduler_defs)
  have c: "lastTimeRef (play exampleHook 0) = 0" "frameTimeOffsetRef (play exampleHook 0) = 0"
    "localFrameIndex (play exampleHook 0) = 0" "length (closureFrames (play exampleHook 0)) = 3"
    "delay (closureFrames (play exampleHook 0) ! 0) = 100"
    by (simp_all add: example_defs scheduler_defs)
  from tick_advances_once [OF a b, of 275] show ?thesis
    using a b by (simp add: c Let_def)
qed

text \<open>
  C9. \<open>pause\<close> drops the scheduled handle and clears \<open>isPlaying\<close> without touching the frame
  index, and every callback that still runs afterwards returns at once: after any run of
  stale callbacks the hook is exactly as \<open>pause\<close> left it, so the frame index cannot move
  before the next \<open>play\<close>.
\<close>

theorem pause_stops_ticks:
  "animationRef (pause h) = None \<and> \<not> isPlaying (state (pause h))
   \<and> currentFrameIndex (state (pause h)) = currentFrameIndex (state h)
   \<and> ticks (pause h) ts = Some (pause h)"
proof -
  have stale: "animate (pause h) t = Some (pause h)" for t
    by (simp add: animate_def pause_def cancelAnimation_def)
  have "ticks (pause h) ts = Some (pause h)"
    by (induction ts) (simp_all add: stale)
  then show ?thesis by (simp add: pause_def cancelAnimation_def)
qed

text \<open>
  C5, as the claim states it: after one callback has left a carry-over of 175, \<open>reset\<close>
  still holds 175, not 0.
\<close>

theorem reset_keeps_carry_counterexample:
  "frameTimeOffsetRef (reset (the (animate (play exampleHook 0) 275))) = 175
   \<and> frameTimeOffsetRef (reset (the (animate (play exampleHook 0) 275))) \<noteq> 0"
  by (simp add: example_defs scheduler_defs Let_def)

text \<open>
  C5, amended. After \<open>reset\<close> the frame index is 0, \<open>isPlaying\<close> is false and no callback is
  scheduled; the carry-over is left as it was, and it is 0 once \<open>play\<close> next starts playback.
\<close>

theorem reset_state:
  "currentFrameIndex (state (reset h)) = 0 \<and> \<not> isPlaying (state (reset h))
   \<and> animationRef (reset h) = None
   \<and> frameTimeOffsetRef (reset h) = frameTimeOffsetRef h
   \<and> (frames (state h) \<noteq> [] \<longrightarrow> frameTimeOffsetRef (play (reset h) now) = 0)"
  by (simp add: reset_def cancelAnimation_def play_def requestAnimationFrame_def)

theorem reset_state_witness:
  "frames (state exampleHook) \<noteq> []
   \<and> currentFrameIndex (state (reset exampleHook)) = 0
   \<and> frameTimeOffsetRef (play (reset exampleHook) 0) = 0"
proof -
  have a: "frames (state exampleHook) \<noteq> []" by (simp add: example_defs)
  from reset_state [of exampleHook 0] a show ?thesis by simp
qed

section \<open>Loading\<close>

text \<open>
  C3, as the claim states it: a load whose parser throws, started on a hook that holds three
  frames, returns \<open>false\<close> and leaves no frames, so the frames after the failed load are not
  those before it.
\<close>

theorem failed_load_clears_frames_counterexample:
  "snd (loadGif exampleHook parseFailure) = False
   \<and> frames (state (fst (loadGif exampleHook parseFailure))) = []
   \<and> frames (state (fst (loadGif exampleHook parseFailure))) \<noteq> frames (state exampleHook)"
  by (simp add: loadGif_def loadAttempt_def parseFailure_def example_defs cancelAnimation_def Let_def)

text \<open>
  C3, amended. After every load that fails no partial Frame Store is installed: the frame
  list is empty (the load empties it before it fetches), while the width, the height and
  the recorded delays are those from before the load; \<open>isLoading\<close> is false and the error is
  set.
\<close>

theorem failed_load_state:
  assumes "snd (loadGif h env) = False"
  shows "frames (state (fst (loadGif h env))) = []
    \<and> width (state (fst (loadGif h env))) = width (state h)
    \<and> height (state (fst (loadGif h env))) = height (state h)
    \<and> originalDelays (state (fst (loadGif h env))) = originalDelays (state h)
    \<and> \<not> isLoading (state (fst (loadGif h env)))
    \<and> error (state (fst (loadGif h env))) \<noteq> None"
  using assms by (auto simp: loadGif_def Let_def cancelAnimation_def split: sum.splits)

theorem failed_load_state_witness:
  "snd (loadGif exampleHook parseFailure) = False
   \<and> width (state (fst (loadGif exampleHook parseFailure))) = 1
   \<and> height (state (fst (loadGif exampleHook parseFailure))) = 1
   \<and> originalDelays (state (fst (loadGif exampleHook parseFailure))) = [100, 200, 50]
   \<and> error (state (fst (loadGif exampleHook parseFailure))) \<noteq> None"
proof -
  have a: "snd (loadGif exampleHook parseFailure) = False"
    by (simp add: loadGif_def loadAttempt_def parseFailure_def Let_def)
  have b: "width (state exampleHook) = 1" "height (state exampleHook) = 1"
    "originalDelays (state exampleHook) = [100, 200, 50]"
    by (simp_all add: example_defs)
  from failed_load_state [OF a] show ?thesis using a by (simp add: b)
qed

section \<open>Compositor\<close>

text \<open>
  C2, evaluated on a 1 by 1 asset. Patch 0 is red and has disposal 3; patch 1 paints
  nothing (its only pixel is the transparent index). The canvas before patch 0 was
  transparent, so a revert to that snapshot would make Frame 1 transparent; the loop does
  nothing for disposal 3 and Frame 1 is red.
\<close>

theorem restore_previous_not_applied:
  "\<not> isl (compose restorePreviousGif)
   \<and> disposalType (restorePreviousGif ! 0) = 3
   \<and> img_data (ctx (loopStart 1 1)) = [transparent]
   \<and> img_data (imageData (processedFrames (projr (compose restorePreviousGif)) ! 0)) = [opaque 255 0 0]
   \<and> img_data (imageData (processedFrames (projr (compose restorePreviousGif)) ! 1)) = [opaque 255 0 0]"
  by code_simp

text \<open>
  C4, as the claim states it, on a 2 by 1 asset. Patch 1 covers column 1 only and has
  disposal 2. Column 0 lies outside its rectangle and is red after patch 1 is drawn; the
  disposal step before patch 2 makes it transparent, and so it is in Frame 2.
\<close>

theorem disposal_background_counterexample:
  "\<not> isl (compose (take 2 backgroundGif))
   \<and> disposalType (backgroundGif ! 1) = 2
   \<and> dims_left (frame_dims (backgroundGif ! 1)) = 1
   \<and> pixelAt (ctx (projr (compose (take 2 backgroundGif)))) 0 0 = opaque 255 0 0
   \<and> pixelAt (disposal (Some (backgroundGif ! 1)) (projr (compose (take 2 backgroundGif)))) 0 0 = transparent
   \<and> img_data (imageData (processedFrames (projr (compose backgroundGif)) ! 2)) = [transparent, transparent]"
  by code_simp

text \<open>
  C4, amended. When patch \<open>i-1\<close> has disposal code 2, the disposal step before patch \<open>i\<close>
  clears the whole canvas: every pixel of the working canvas is fully transparent after it,
  inside and outside the rectangle of patch \<open>i-1\<close>.
\<close>

theorem disposal_background_clears_canvas:
  assumes "disposalType p = 2" and "x < img_width (ctx st)" and "y < img_height (ctx st)"
  shows "disposal (Some p) st = clearRect (ctx st) \<and> pixelAt (disposal (Some p) st) x y = transparent"
  using assms by (simp add: disposal_def clearRect_def pixelAt_bitmap)

theorem disposal_background_clears_canvas_witness:
  "disposalType (backgroundGif ! 1) = 2
   \<and> (0::nat) < img_width (ctx (projr (compose (take 2 backgroundGif))))
   \<and> (0::nat) < img_height (ctx (projr (compose (take 2 backgroundGif))))
   \<and> pixelAt (disposal (Some (backgroundGif ! 1)) (projr (compose (take 2 backgroundGif)))) 0 0 = transparent"
proof -
  have a: "disposalType (backgroundGif ! 1) = 2" by code_simp
  have b: "(0::nat) < img_width (ctx (projr (compose (take 2 backgroundGif))))" by code_simp
  have c: "(0::nat) < img_height (ctx (projr (compose (take 2 backgroundGif))))" by code_simp
  from disposal_background_clears_canvas [OF a b c]
  have "pixelAt (disposal (Some (backgroundGif ! 1)) (projr (compose (take 2 backgroundGif)))) 0 0 = transparent"
    by (rule conjunct2)
  with a b c show ?thesis by blast
qed

text \<open>
  C6. In one iteration of the loop that does not throw, take a pixel position \<open>(x, y)\<close> of
  the patch that has a colour index and whose destination \<open>(left + x, top + y)\<close> lies on the
  canvas. If the index is the transparent index, the recorded Frame shows at the destination
  what the working canvas held there after the disposal step; otherwise it shows the colour
  of the table (black when the table has no such entry) with alpha 255.
\<close>

theorem patch_pixel_compositing:
  assumes step: "processFrame prev frame st = Inr st'"
    and same: "img_width (patchCanvas st) = img_width (ctx st)" "img_height (patchCanvas st) = img_height (ctx st)"
    and inpatch: "x < dims_width (frame_dims frame)" "y < dims_height (frame_dims frame)"
    and incanvas: "dims_left (frame_dims frame) + x < img_width (ctx st)"
        "dims_top (frame_dims frame) + y < img_height (ctx st)"
    and idx: "at_index (pixels frame) (y * dims_width (frame_dims frame) + x) = Some colorIndex"
  shows "pixelAt (imageData (last (processedFrames st')))
           (dims_left (frame_dims frame) + x) (dims_top (frame_dims frame) + y) =
     (if transparentIndex frame = Some colorIndex
      then pixelAt (disposal prev st) (dims_left (frame_dims frame) + x) (dims_top (frame_dims frame) + y)
      else (case at_index (colorTable frame) colorIndex of
              None \<Rightarrow> \<lparr>red = 0, green = 0, blue = 0, alpha = 255\<rparr>
            | Some (r, g, b) \<Rightarrow> \<lparr>red = r, green = g, blue = b, alpha = 255\<rparr>))"
proof -
  let ?l = "dims_left (frame_dims frame)" and ?t = "dims_top (frame_dims frame)"
  let ?W = "img_width (ctx st)" and ?H = "img_height (ctx st)"
  from step obtain p where p: "patchImageData frame = Inr p"
    and c: "ctx st' = drawImage (putImageData p (patchCanvas st)) ?l ?t (disposal prev st)"
    and fr: "processedFrames st' = processedFrames st @
        [\<lparr>imageData = getImageData (ctx st'), delay = delayOrDefault (frame_delay frame)\<rparr>]"
    by (rule processFrame_Inr)
  let ?pc = "putImageData p (patchCanvas st)"
  have pdims: "img_width p = dims_width (frame_dims frame)" "img_height p = dims_height (frame_dims frame)"
    by (simp_all add: patchImageData_Inr [OF p])
  have xW: "x < ?W" and yH: "y < ?H" using incanvas by simp_all
  have pc: "pixelAt ?pc x y = patchPixel frame (y * dims_width (frame_dims frame) + x)"
    using xW yH inpatch by (simp add: putImageData_def same pixelAt_bitmap pdims pixelAt_patch [OF p])
  have pcd: "img_width ?pc = ?W" "img_height ?pc = ?H" by (simp_all add: same)
  have cd: "img_width (ctx st') = ?W" "img_height (ctx st') = ?H"
    by (simp_all add: c)
  have "pixelAt (imageData (last (processedFrames st'))) (?l + x) (?t + y) = pixelAt (ctx st') (?l + x) (?t + y)"
    using incanvas by (simp add: fr getImageData_def cd pixelAt_bitmap)
  also have "\<dots> = (if alpha (pixelAt ?pc x y) \<noteq> 0 then pixelAt ?pc x y
                    else pixelAt (disposal prev st) (?l + x) (?t + y))"
    using incanvas xW yH by (simp add: c drawImage_def pixelAt_bitmap same)
  also have "\<dots> = (if transparentIndex frame = Some colorIndex
      then pixelAt (disposal prev st) (?l + x) (?t + y)
      else (case at_index (colorTable frame) colorIndex of
              None \<Rightarrow> \<lparr>red = 0, green = 0, blue = 0, alpha = 255\<rparr>
            | Some (r, g, b) \<Rightarrow> \<lparr>red = r, green = g, blue = b, alpha = 255\<rparr>))"
    by (simp add: pc patchPixel_def idx transparent_def opaque_def split: option.splits)
  finally show ?thesis .
qed

theorem patch_pixel_compositing_witness:
  "\<not> isl (processFrame None mixedPatch (loopStart 3 1))
   \<and> at_index (pixels mixedPatch) (0 * dims_width (frame_dims mixedPatch) + 1) = Some 5
   \<and> transparentIndex mixedPatch = Some 5
   \<and> pixelAt (imageData (last (processedFrames (projr (processFrame None mixedPatch (loopStart 3 1))))))
        (dims_left (frame_dims mixedPatch) + 1) (dims_top (frame_dims mixedPatch) + 0)
     = pixelAt (disposal None (loopStart 3 1)) (dims_left (frame_dims mixedPatch) + 1) (dims_top (frame_dims mixedPatch) + 0)"
proof -
  have r: "\<not> isl (processFrame None mixedPatch (loopStart 3 1))" by code_simp
  then have step: "processFrame None mixedPatch (loopStart 3 1)
      = Inr (projr (processFrame None mixedPatch (loopStart 3 1)))" by simp
  have same: "img_width (patchCanvas (loopStart 3 1)) = img_width (ctx (loopStart 3 1))"
    "img_height (patchCanvas (loopStart 3 1)) = img_height (ctx (loopStart 3 1))"
    by (simp_all add: loopStart_def)
  have inpatch: "1 < dims_width (frame_dims mixedPatch)" "0 < dims_height (frame_dims mixedPatch)"
    by (simp_all add: mixedPatch_def patch_def)
  have incanvas: "dims_left (frame_dims mixedPatch) + 1 < img_width (ctx (loopStart 3 1))"
    "dims_top (frame_dims mixedPatch) + 0 < img_height (ctx (loopStart 3 1))"
    by (simp_all add: mixedPatch_def patch_def loopStart_def)
  have idx: "at_index (pixels mixedPatch) (0 * dims_width (frame_dims mixedPatch) + 1) = Some 5"
    by (simp add: mixedPatch_def patch_def at_index_def)
  have ti: "transparentIndex mixedPatch = Some 5" by (simp add: mixedPatch_def patch_def)
  from patch_pixel_compositing [OF step same inpatch incanvas idx]
  show ?thesis using r idx ti by simp
qed

text \<open>
  C10. A patch pixel whose colour index is not the transparent index and has no entry in
  the colour table is expanded to opaque black, and the patch image is built all the same:
  building it fails only for a patch without pixels, whatever the indices are.
\<close>

theorem bad_color_index_is_black:
  assumes "at_index (pixels frame) j = Some colorIndex"
    and "transparentIndex frame \<noteq> Some colorIndex"
    and "length (colorTable frame) \<le> colorIndex"
    and "j < dims_width (frame_dims frame) * dims_height (frame_dims frame)"
  shows "patchPixel frame j = \<lparr>red = 0, green = 0, blue = 0, alpha = 255\<rparr> \<and>
     \<not> isl (patchImageData frame) \<and>
     img_data (projr (patchImageData frame)) ! j = \<lparr>red = 0, green = 0, blue = 0, alpha = 255\<rparr>"
proof -
  from assms(4) have nz: "dims_width (frame_dims frame) * dims_height (frame_dims frame) \<noteq> 0"
    by linarith
  have px: "patchPixel frame j = \<lparr>red = 0, green = 0, blue = 0, alpha = 255\<rparr>"
    using assms(1-3) by (simp add: patchPixel_def at_index_def opaque_def)
  have "patchImageData frame = Inr \<lparr>img_width = dims_width (frame_dims frame),
      img_height = dims_height (frame_dims frame),
      img_data = map (patchPixel frame) [0..<dims_width (frame_dims frame) * dims_height (frame_dims frame)]\<rparr>"
    using nz by (simp add: patchImageData_def Let_def)
  with px assms(4) show ?thesis by simp
qed

theorem bad_color_index_is_black_witness:
  "at_index (pixels mixedPatch) 2 = Some 7
   \<and> transparentIndex mixedPatch \<noteq> Some 7
   \<and> length (colorTable mixedPatch) \<le> 7
   \<and> 2 < dims_width (frame_dims mixedPatch) * dims_height (frame_dims mixedPatch)
   \<and> patchPixel mixedPatch 2 = \<lparr>red = 0, green = 0, blue = 0, alpha = 255\<rparr>
   \<and> \<not> isl (patchImageData mixedPatch)"
proof -
  have a: "at_index (pixels mixedPatch) 2 = Some 7" by (simp add: mixedPatch_def patch_def at_index_def)
  have b: "transparentIndex mixedPatch \<noteq> Some 7" by (simp add: mixedPatch_def patch_def)
  have c: "length (colorTable mixedPatch) \<le> 7" by (simp add: mixedPatch_def patch_def)
  have d: "2 < dims_width (frame_dims mixedPatch) * dims_height (frame_dims mixedPatch)"
    by (simp add: mixedPatch_def patch_def)
  from bad_color_index_is_black [OF a b c d] show ?thesis using a b c d by simp
qed

section \<open>Rendering and export\<close>

text \<open>
  C8. When the store has no frames, or the frame index (the state's \<open>currentFrameIndex\<close>,
  which is the index \<open>renderToCanvas\<close> draws) is not below the number of frames,
  \<open>renderToCanvas\<close> returns \<open>false\<close> and the target canvas is as it was, size and pixels.
\<close>

theorem render_out_of_range:
  assumes "frames (state h) = [] \<or> length (frames (state h)) \<le> currentFrameIndex (state h)"
  shows "renderToCanvas h cv fx = (False, cv)"
  using assms by (auto simp: renderToCanvas_def Let_def)

theorem render_out_of_range_witness:
  "length (frames (state outOfRangeHook)) = 3
   \<and> currentFrameIndex (state outOfRangeHook) = 999
   \<and> renderToCanvas outOfRangeHook exampleCanvas None = (False, exampleCanvas)"
proof -
  have a: "length (frames (state outOfRangeHook)) = 3" "currentFrameIndex (state outOfRangeHook) = 999"
    by (simp_all add: outOfRangeHook_def example_defs)
  then have "frames (state outOfRangeHook) = [] \<or>
      length (frames (state outOfRangeHook)) \<le> currentFrameIndex (state outOfRangeHook)" by simp
  from render_out_of_range [OF this] show ?thesis using a by simp
qed

text \<open>
  C7. For a store with frames that has the shape every load leaves (\<open>storeOk\<close>), a canvas
  with a context, an encoder that loads and renders, and an effect that always returns,
  the export resolves with exactly one entry per frame, in the frames' order: entry \<open>i\<close> is
  the effect applied to frame \<open>i\<close> drawn on the canvas as the previous step left it, paired
  with frame \<open>i\<close>'s own delay. With the identity effect the pixel buffers handed over are the
  frames' images themselves.
\<close>

theorem export_hands_frames_in_order:
  assumes nonempty: "frames (state h) \<noteq> []" and ok: "storeOk (state h)"
    and env: "hasContext cv" "moduleLoads env" "renderOk env"
    and fx: "\<forall>c. fx c = Returned (t c)"
  shows "\<exists>xs. generateGif h cv fx env = Resolved xs \<and> length xs = length (frames (state h)) \<and>
     map snd xs = map (\<lambda>f. Some (delay f)) (frames (state h)) \<and>
     (\<forall>i<length (frames (state h)). fst (xs ! i) =
         t (putImageData (imageData (frames (state h) ! i))
              (if i = 0 then fitCanvas (state h) (surface cv) else fst (xs ! (i - 1))))) \<and>
     ((\<forall>c. t c = c) \<longrightarrow> map fst xs = map imageData (frames (state h)))"
proof -
  let ?s = "state h" and ?c0 = "fitCanvas (state h) (surface cv)"
  from ok nonempty have ds: "originalDelays ?s = map delay (frames ?s)"
    and sized: "list_all (\<lambda>f. wellSized (width ?s) (height ?s) (imageData f)) (frames ?s)"
    by (simp_all add: storeOk_def)
  from processNextFrame_returns [OF fx, of "originalDelays ?s" 0 "frames ?s" ?c0 "[]"]
  obtain xs where run: "processNextFrame (originalDelays ?s) fx True 0 (frames ?s) ?c0 [] = Resolved xs"
    and len: "length xs = length (frames ?s)"
    and each: "\<forall>i<length (frames ?s). xs ! i =
        (t (putImageData (imageData (frames ?s ! i)) (if i = 0 then ?c0 else fst (xs ! (i - 1)))),
         at_index (originalDelays ?s) (0 + i))"
    by auto
  have gen: "generateGif h cv fx env = Resolved xs"
    using nonempty env run by (simp add: generateGif_def Let_def)
  have delays: "map snd xs = map (\<lambda>f. Some (delay f)) (frames ?s)"
  proof (rule nth_equalityI)
    show "length (map snd xs) = length (map (\<lambda>f. Some (delay f)) (frames ?s))" using len by simp
  next
    fix i assume "i < length (map snd xs)"
    then have i: "i < length (frames ?s)" using len by simp
    with each have "snd (xs ! i) = at_index (originalDelays ?s) i" by simp
    with i len show "map snd xs ! i = map (\<lambda>f. Some (delay f)) (frames ?s) ! i"
      by (simp add: ds at_index_def)
  qed
  have bufs: "\<forall>i<length (frames ?s). fst (xs ! i) =
         t (putImageData (imageData (frames ?s ! i)) (if i = 0 then ?c0 else fst (xs ! (i - 1))))"
    using each by simp
  have ident: "map fst xs = map imageData (frames ?s)" if idt: "\<forall>c. t c = c"
  proof (rule nth_equalityI)
    show "length (map fst xs) = length (map imageData (frames ?s))" using len by simp
  next
    fix i assume "i < length (map fst xs)"
    then have i: "i < length (frames ?s)" using len by simp
    have "i < length (frames ?s) \<Longrightarrow> fst (xs ! i) = imageData (frames ?s ! i)"
    proof (induction i)
      case 0
      have w: "wellSized (width ?s) (height ?s) (imageData (frames ?s ! 0))"
        using sized 0 by (simp add: list_all_length)
      from bufs 0 have "fst (xs ! 0) = putImageData (imageData (frames ?s ! 0)) ?c0"
        using idt by simp
      also have "\<dots> = imageData (frames ?s ! 0)"
        using w by (rule putImageData_same) simp_all
      finally show ?case .
    next
      case (Suc j)
      then have prev: "fst (xs ! j) = imageData (frames ?s ! j)" by simp
      have wj: "wellSized (width ?s) (height ?s) (imageData (frames ?s ! j))"
        using sized Suc.prems by (simp add: list_all_length)
      have w: "wellSized (width ?s) (height ?s) (imageData (frames ?s ! Suc j))"
        using sized Suc.prems by (simp add: list_all_length)
      from bufs Suc.prems have "fst (xs ! Suc j) = putImageData (imageData (frames ?s ! Suc j)) (fst (xs ! j))"
        using idt by simp
      also have "\<dots> = imageData (frames ?s ! Suc j)"
        using w by (rule putImageData_same) (use wj prev in \<open>simp_all add: wellSized_def\<close>)
      finally show ?case .
    qed
    with i len show "map fst xs ! i = map imageData (frames ?s) ! i" by simp
  qed
  from gen len delays bufs ident show ?thesis by blast
qed

theorem export_hands_frames_in_order_witness:
  "frames (state (fst (loadGif initialHook backgroundLoad))) \<noteq> []
   \<and> storeOk (state (fst (loadGif initialHook backgroundLoad)))
   \<and> hasContext exampleCanvas \<and> moduleLoads exampleExport \<and> renderOk exampleExport
   \<and> generateGif (fst (loadGif initialHook backgroundLoad)) exampleCanvas Returned exampleExport
       = Resolved (zip (map imageData (frames (state (fst (loadGif initialHook backgroundLoad)))))
                       [Some 10, Some 10, Some 10])"
proof -
  let ?h = "fst (loadGif initialHook backgroundLoad)"
  have a: "frames (state ?h) \<noteq> []" by code_simp
  have b: "storeOk (state ?h)" by (rule loadGif_storeOk)
  have c: "hasContext exampleCanvas" "moduleLoads exampleExport" "renderOk exampleExport"
    by (simp_all add: exampleCanvas_def exampleExport_def)
  have d: "\<forall>c. Returned c = Returned ((\<lambda>c. c) c)" by simp
  have e: "map (\<lambda>f. Some (delay f)) (frames (state ?h)) = [Some 10, Some 10, Some 10]" by code_simp
  from export_hands_frames_in_order [OF a b c d]
  obtain xs where g: "generateGif ?h exampleCanvas Returned exampleExport = Resolved xs"
    and s: "map snd xs = map (\<lambda>f. Some (delay f)) (frames (state ?h))"
    and f: "map fst xs = map imageData (frames (state ?h))"
    by auto
  have "xs = zip (map fst xs) (map snd xs)" by (simp add: zip_map_fst_snd)
  with s f e have "xs = zip (map imageData (frames (state ?h))) [Some 10, Some 10, Some 10]" by simp
  with g a b c show ?thesis by simp
qed

end
